theory Spec2Isabelle
  imports Main "HOL-Library.Monad_Syntax" "HOL-Library.Multiset"
begin

section \<open>Host environment\<close>

text \<open>
  The front end reads the JavaScript host in a few places: the clock (\<open>new Date()\<close>),
  the local time zone (\<open>setHours(0,0,0,0)\<close>, \<open>toDateString\<close>), the collation of
  \<open>String.prototype.localeCompare\<close>, and the locale's renderings of a time of day, of
  a weekday with its time and of a short date. They are the fields of \<open>Host\<close>.
  Instants are milliseconds since the epoch, as \<open>Date.prototype.getTime\<close> returns
  them; the local time zone is a fixed offset from UTC, in milliseconds.
\<close>

record Host =
  clock :: int
  tzOffset :: int
  localeCompare :: "string \<Rightarrow> string \<Rightarrow> int"
  toLocaleTimeString :: "int \<Rightarrow> string"
  toLocaleWeekday :: "int \<Rightarrow> string"
  toLocaleShortDate :: "int \<Rightarrow> string"

definition msPerDay :: int where
  "msPerDay = 86400000"

text \<open>\<open>d.setHours(0, 0, 0, 0)\<close>: the instant of local midnight of the day of \<open>d\<close>.\<close>

definition setHours0 :: "Host \<Rightarrow> int \<Rightarrow> int" where
  "setHours0 h d = d - (d + tzOffset h) mod msPerDay"

definition getToday :: "Host \<Rightarrow> int" where
  "getToday h = setHours0 h (clock h)"

section \<open>Tasks\<close>

datatype Priority = Low | Medium | High

datatype Recurring = RNone | Daily | Weekly | Monthly

datatype Category = Work | Home | Other

text \<open>
  Modelled from the spec: the declaration of \<open>Task\<close> (\<open>types/task\<close>) is not among the
  sources; the fields are those of the spec's data model. A date string is held as the
  instant \<open>new Date(s).getTime()\<close> gives for it, and an absent or empty \<open>due_date\<close>
  (both falsy where the source tests the field) is \<open>None\<close>.
\<close>

record Task =
  task_id :: int
  title :: string
  description :: "string option"
  completed :: bool
  priority :: Priority
  due_date :: "int option"
  recurring :: Recurring
  category :: Category
  created_at :: int
  user_id :: int

datatype StatusFilter = All | Active | Completed | Overdue | Upcoming

datatype SortKey = Created_at | Due_date | ByPriority | Title

datatype SortOrder = Asc | Desc

text \<open>The component state that \<open>applyFiltersAndSorting\<close> closes over.\<close>

record Params =
  searchTerm :: string
  statusFilter :: StatusFilter
  sortBy :: SortKey
  sortOrder :: SortOrder

section \<open>Strings\<close>

text \<open>\<open>toLowerCase\<close> on the ASCII letters; every other character is kept.\<close>

definition lowerChar :: "char \<Rightarrow> char" where
  "lowerChar c =
     (case map_of (zip ''ABCDEFGHIJKLMNOPQRSTUVWXYZ'' ''abcdefghijklmnopqrstuvwxyz'') c of
        None \<Rightarrow> c
      | Some d \<Rightarrow> d)"

definition toLowerCase :: "string \<Rightarrow> string" where
  "toLowerCase s = map lowerChar s"

fun startsWith :: "string \<Rightarrow> string \<Rightarrow> bool" where
  "startsWith s [] = True"
| "startsWith [] (c # t) = False"
| "startsWith (d # s) (c # t) = (d = c \<and> startsWith s t)"

text \<open>\<open>s.includes(t)\<close>: \<open>t\<close> occurs in \<open>s\<close> as a contiguous substring.\<close>

fun str_includes :: "string \<Rightarrow> string \<Rightarrow> bool" where
  "str_includes [] t = (t = [])"
| "str_includes (d # s) t = (startsWith (d # s) t \<or> str_includes s t)"

section \<open>The filter and sort pipeline\<close>

text \<open>Step 1, the search predicate; \<open>term\<close> is the lower-cased search term.\<close>

definition matchesSearch :: "string \<Rightarrow> Task \<Rightarrow> bool" where
  "matchesSearch term task =
     (str_includes (toLowerCase (title task)) term \<or>
      (case description task of
         None \<Rightarrow> False
       | Some d \<Rightarrow> str_includes (toLowerCase d) term))"

text \<open>Step 2, the status predicate, with \<open>today\<close> the local midnight of the current day.\<close>

definition statusKeeps :: "Host \<Rightarrow> StatusFilter \<Rightarrow> int \<Rightarrow> Task \<Rightarrow> bool" where
  "statusKeeps h f today task =
     (let taskDate = map_option (setHours0 h) (due_date task) in
      case f of
        Active \<Rightarrow> \<not> completed task
      | Completed \<Rightarrow> completed task
      | Overdue \<Rightarrow>
          \<not> completed task \<and> (case taskDate of None \<Rightarrow> False | Some d \<Rightarrow> d < today)
      | Upcoming \<Rightarrow>
          \<not> completed task \<and> (case taskDate of None \<Rightarrow> False | Some d \<Rightarrow> d \<ge> today)
      | All \<Rightarrow> True)"

text \<open>Step 3, the comparator handed to \<open>Array.prototype.sort\<close>.\<close>

fun pOrder :: "Priority \<Rightarrow> int" where
  "pOrder High = 3"
| "pOrder Medium = 2"
| "pOrder Low = 1"

definition comparison :: "Host \<Rightarrow> SortKey \<Rightarrow> Task \<Rightarrow> Task \<Rightarrow> int" where
  "comparison h k a b =
     (case k of
        Title \<Rightarrow> localeCompare h (title a) (title b)
      | Due_date \<Rightarrow>
          (case due_date a of
             None \<Rightarrow> (case due_date b of None \<Rightarrow> 0 | Some y \<Rightarrow> 1)
           | Some x \<Rightarrow> (case due_date b of None \<Rightarrow> - 1 | Some y \<Rightarrow> x - y))
      | ByPriority \<Rightarrow> pOrder (priority b) - pOrder (priority a)
      | Created_at \<Rightarrow> created_at b - created_at a)"

definition compareFn :: "Host \<Rightarrow> Params \<Rightarrow> Task \<Rightarrow> Task \<Rightarrow> int" where
  "compareFn h p a b =
     (if sortOrder p = Asc then comparison h (sortBy p) a b
      else - comparison h (sortBy p) a b)"

text \<open>
  \<open>Array.prototype.sort\<close> is stable, and with a consistent comparator its result is
  the one stable arrangement: an element goes before the first element it does not
  compare greater than.
\<close>

fun insert_cmp :: "('a \<Rightarrow> 'a \<Rightarrow> int) \<Rightarrow> 'a \<Rightarrow> 'a list \<Rightarrow> 'a list" where
  "insert_cmp c x [] = [x]"
| "insert_cmp c x (y # ys) = (if c x y \<le> 0 then x # y # ys else y # insert_cmp c x ys)"

definition sort_cmp :: "('a \<Rightarrow> 'a \<Rightarrow> int) \<Rightarrow> 'a list \<Rightarrow> 'a list" where
  "sort_cmp c xs = foldr (insert_cmp c) xs []"

text \<open>
  What \<open>Array.prototype.sort\<close> asks of its comparator for the order to be defined:
  the signs of \<open>c a b\<close> and \<open>c b a\<close> are opposite, and \<open>\<le> 0\<close> is transitive.
\<close>

definition consistent :: "('a \<Rightarrow> 'a \<Rightarrow> int) \<Rightarrow> bool" where
  "consistent c \<longleftrightarrow>
     (\<forall>a b. (c a b < 0) = (0 < c b a)) \<and>
     (\<forall>a b d. c a b \<le> 0 \<longrightarrow> c b d \<le> 0 \<longrightarrow> c a d \<le> 0)"

abbreviation ordered_by :: "('a \<Rightarrow> 'a \<Rightarrow> int) \<Rightarrow> 'a list \<Rightarrow> bool" where
  "ordered_by c \<equiv> sorted_wrt (\<lambda>a b. c a b \<le> 0)"

definition applyFiltersAndSorting :: "Host \<Rightarrow> Params \<Rightarrow> Task list \<Rightarrow> Task list" where
  "applyFiltersAndSorting h p tasksToFilter =
     (let today = getToday h;
          searched =
            (if searchTerm p \<noteq> []
             then filter (matchesSearch (toLowerCase (searchTerm p))) tasksToFilter
             else tasksToFilter);
          kept = filter (statusKeeps h (statusFilter p) today) searched
      in sort_cmp (compareFn h p) kept)"

section \<open>The activity feed\<close>

text \<open>
  Modelled from the spec: the declaration of \<open>ActivityItem\<close> (\<open>types/activity\<close>) is not
  among the sources; the fields are the four the feed writes. Identifiers of the server's
  records are numbers, those of locally emitted events are strings, and \<open>!==\<close> tells
  a number from a string.
\<close>

datatype ActivityId = NumId int | StrId string

record ActivityItem =
  act_id :: ActivityId
  action :: string
  task_title :: string
  act_created_at :: int

text \<open>The \<open>detail\<close> of a \<open>task-activity\<close> event, as the task pages build it.\<close>

record ActivityDetail =
  detail_id :: ActivityId
  detail_type :: string
  taskId :: int
  taskTitle :: string
  userId :: int
  timestamp :: int
  message :: string

text \<open>
  What the API client resolves to: \<open>{success, data?, error?}\<close>. An awaited call
  either resolves to a value or rejects with an error, held by its message.
\<close>

record 'd ApiResponse =
  resp_success :: bool
  resp_data :: "'d option"
  resp_error :: "string option"

datatype 'a Settled = Rejected string | Resolved 'a

record FeedState =
  activities :: "ActivityItem list"
  feed_loading :: bool
  feed_error :: "string option"

definition orUndefined :: "string option \<Rightarrow> string" where
  "orUndefined e = (case e of None \<Rightarrow> ''undefined'' | Some m \<Rightarrow> m)"

text \<open>
  \<open>fetchActivities\<close>, from the state before the call to the state after it; the token
  is \<open>None\<close> when the context holds none.
\<close>

definition fetchActivities ::
  "string option \<Rightarrow> ActivityItem list ApiResponse Settled \<Rightarrow> FeedState \<Rightarrow> FeedState" where
  "fetchActivities token settled st =
     (if token = None \<or> token = Some []
      then st\<lparr>feed_error := Some ''Authentication token not available'',
              feed_loading := False\<rparr>
      else
        (case settled of
           Rejected msg \<Rightarrow> st\<lparr>feed_error := Some msg, feed_loading := False\<rparr>
         | Resolved response \<Rightarrow>
             if \<not> resp_success response
             then st\<lparr>feed_error :=
                       Some (''Failed to fetch activities: '' @ orUndefined (resp_error response)),
                     feed_loading := False\<rparr>
             else st\<lparr>feed_error := None,
                     activities :=
                       (case resp_data response of None \<Rightarrow> [] | Some d \<Rightarrow> take 10 d),
                     feed_loading := False\<rparr>))"

definition convertedActivity :: "ActivityDetail \<Rightarrow> ActivityItem" where
  "convertedActivity activityDetail =
     \<lparr>act_id = detail_id activityDetail,
      action = detail_type activityDetail,
      task_title = taskTitle activityDetail,
      act_created_at = timestamp activityDetail\<rparr>"

text \<open>The updater that \<open>handleTaskActivity\<close> hands to \<open>setActivities\<close>.\<close>

definition mergeActivity :: "ActivityDetail \<Rightarrow> ActivityItem list \<Rightarrow> ActivityItem list" where
  "mergeActivity activityDetail prevActivities =
     (let filteredActivities =
            filter (\<lambda>activity. act_id activity \<noteq> act_id (convertedActivity activityDetail))
              prevActivities
      in take 10 (convertedActivity activityDetail # filteredActivities))"

definition handleTaskActivity :: "ActivityDetail \<Rightarrow> FeedState \<Rightarrow> FeedState" where
  "handleTaskActivity activityDetail st =
     st\<lparr>activities := mergeActivity activityDetail (activities st)\<rparr>"

text \<open>
  What happens to the feed while the component is mounted: a fetch settles, or a
  \<open>task-activity\<close> event arrives. The component starts with \<open>useState([])\<close>,
  \<open>useState(true)\<close> and \<open>useState(null)\<close>.
\<close>

datatype FeedEvent =
    Fetched "string option" "ActivityItem list ApiResponse Settled"
  | Emitted ActivityDetail

fun feedStep :: "FeedState \<Rightarrow> FeedEvent \<Rightarrow> FeedState" where
  "feedStep st (Fetched token settled) = fetchActivities token settled st"
| "feedStep st (Emitted activityDetail) = handleTaskActivity activityDetail st"

definition runFeed :: "FeedEvent list \<Rightarrow> FeedState \<Rightarrow> FeedState" where
  "runFeed events st = foldl feedStep st events"

definition initialFeed :: FeedState where
  "initialFeed = \<lparr>activities = [], feed_loading = True, feed_error = None\<rparr>"

text \<open>An event whose response, if it carries a list, names no identifier twice.\<close>

fun distinctIds :: "FeedEvent \<Rightarrow> bool" where
  "distinctIds (Fetched token (Resolved response)) =
     (case resp_data response of None \<Rightarrow> True | Some d \<Rightarrow> distinct (map act_id d))"
| "distinctIds (Fetched token (Rejected e)) = True"
| "distinctIds (Emitted activityDetail) = True"

section \<open>The relative-time formatter\<close>

text \<open>An integer in a template literal: its decimal digits, with a sign when negative.\<close>

definition digitChar :: "nat \<Rightarrow> char" where
  "digitChar n = ''0123456789'' ! (n mod 10)"

fun natToString :: "nat \<Rightarrow> string" where
  "natToString n =
     (if n < 10 then [digitChar n] else natToString (n div 10) @ [digitChar n])"

declare natToString.simps [simp del]

definition numToString :: "int \<Rightarrow> string" where
  "numToString i =
     (if i < 0 then CHR ''-'' # natToString (nat (- i)) else natToString (nat i))"

text \<open>
  \<open>formatTimeAgo\<close>. The argument is \<open>None\<close> for an absent or empty date string and
  the instant the string denotes otherwise; \<open>now\<close> is the host's clock. Two instants
  have the same \<open>toDateString\<close> when they fall on the same local day.
\<close>

definition formatTimeAgo :: "Host \<Rightarrow> int option \<Rightarrow> string" where
  "formatTimeAgo h dateString =
     (case dateString of
        None \<Rightarrow> ''just now''
      | Some date \<Rightarrow>
          (let now = clock h;
               seconds = (now - date) div 1000
           in if seconds < 60 then ''just now''
              else if seconds < 3600 then
                (let minutes = seconds div 60
                 in numToString minutes @ '' minute'' @ (if minutes \<noteq> 1 then ''s'' else [])
                    @ '' ago'')
              else if seconds < 86400 then
                (let hours = seconds div 3600
                 in numToString hours @ '' hour'' @ (if hours \<noteq> 1 then ''s'' else [])
                    @ '' ago'')
              else if setHours0 h date = setHours0 h now
              then ''Today at '' @ toLocaleTimeString h date
              else if setHours0 h date = setHours0 h (now - msPerDay)
              then ''Yesterday at '' @ toLocaleTimeString h date
              else if seconds < 604800 then toLocaleWeekday h date
              else toLocaleShortDate h date))"

section \<open>The task API\<close>

datatype Method = GET | POST | PUT | DELETE

text \<open>
  \<open>CreateTaskData\<close> and \<open>UpdateTaskData\<close>; the fields carry a prefix where \<open>Task\<close>
  has one of the same name. The form keeps \<open>due_date\<close> as the text of its input.
\<close>

record CreateTaskData =
  new_title :: string
  new_description :: "string option"
  new_priority :: "Priority option"
  new_due_date :: "string option"
  new_recurring :: "Recurring option"
  new_category :: "Category option"

record UpdateTaskData =
  upd_title :: "string option"
  upd_description :: "string option"
  upd_completed :: "bool option"
  upd_priority :: "Priority option"
  upd_due_date :: "string option"
  upd_recurring :: "Recurring option"
  upd_category :: "Category option"

datatype Body = CreateBody CreateTaskData | UpdateBody UpdateTaskData

record Request =
  req_method :: Method
  req_path :: string
  req_body :: "Body option"
  req_headers :: "(string \<times> string) list"

text \<open>
  The object a \<open>tasksApi\<close> function resolves to; a property the object literal does not
  set is \<open>None\<close>.
\<close>

record Result =
  success :: bool
  tasks :: "Task list option"
  task :: "Task option"
  error :: "string option"

definition bearer :: "string \<Rightarrow> (string \<times> string) list" where
  "bearer token = [(''Authorization'', ''Bearer '' @ token)]"

text \<open>
  The four calls of the API client, \<open>apiClient.get(path, headers)\<close> and the like, as
  the requests they stand for.
\<close>

definition get_request :: "string \<Rightarrow> (string \<times> string) list \<Rightarrow> Request" where
  "get_request p hs = \<lparr>req_method = GET, req_path = p, req_body = None, req_headers = hs\<rparr>"

definition post_request :: "string \<Rightarrow> Body \<Rightarrow> (string \<times> string) list \<Rightarrow> Request" where
  "post_request p b hs =
     \<lparr>req_method = POST, req_path = p, req_body = Some b, req_headers = hs\<rparr>"

definition put_request :: "string \<Rightarrow> Body \<Rightarrow> (string \<times> string) list \<Rightarrow> Request" where
  "put_request p b hs =
     \<lparr>req_method = PUT, req_path = p, req_body = Some b, req_headers = hs\<rparr>"

definition delete_request :: "string \<Rightarrow> (string \<times> string) list \<Rightarrow> Request" where
  "delete_request p hs =
     \<lparr>req_method = DELETE, req_path = p, req_body = None, req_headers = hs\<rparr>"

text \<open>
  Each function takes the API client as its first argument, a function from the request
  to what the awaited call settles to; a rejection passes through the \<open>await\<close>.
\<close>

definition getAllTasks ::
  "(Request \<Rightarrow> Task list ApiResponse Settled) \<Rightarrow> string \<Rightarrow> Result Settled" where
  "getAllTasks apiClient token =
     (case apiClient (get_request ''/tasks'' (bearer token)) of
        Rejected e \<Rightarrow> Rejected e
      | Resolved response \<Rightarrow>
          if resp_success response
          then Resolved \<lparr>success = True, tasks = resp_data response, task = None, error = None\<rparr>
          else Resolved \<lparr>success = False, tasks = None, task = None,
                         error = resp_error response\<rparr>)"

text \<open>The tail of \<open>createTask\<close>, \<open>updateTask\<close> and \<open>getTaskById\<close>.\<close>

definition taskResult :: "Task ApiResponse Settled \<Rightarrow> Result Settled" where
  "taskResult settled =
     (case settled of
        Rejected e \<Rightarrow> Rejected e
      | Resolved response \<Rightarrow>
          if resp_success response \<and> resp_data response \<noteq> None
          then Resolved \<lparr>success = True, tasks = None, task = resp_data response, error = None\<rparr>
          else Resolved \<lparr>success = False, tasks = None, task = None,
                         error = resp_error response\<rparr>)"

definition createTask ::
  "(Request \<Rightarrow> Task ApiResponse Settled) \<Rightarrow> CreateTaskData \<Rightarrow> string \<Rightarrow> Result Settled" where
  "createTask apiClient taskData token =
     taskResult (apiClient (post_request ''/tasks'' (CreateBody taskData) (bearer token)))"

definition updateTask ::
  "(Request \<Rightarrow> Task ApiResponse Settled) \<Rightarrow> int \<Rightarrow> UpdateTaskData \<Rightarrow> string
     \<Rightarrow> Result Settled" where
  "updateTask apiClient tid taskData token =
     taskResult
       (apiClient (put_request (''/tasks/'' @ numToString tid) (UpdateBody taskData)
                     (bearer token)))"

definition deleteTask ::
  "(Request \<Rightarrow> 'd ApiResponse Settled) \<Rightarrow> int \<Rightarrow> string \<Rightarrow> Result Settled" where
  "deleteTask apiClient tid token =
     (case apiClient (delete_request (''/tasks/'' @ numToString tid) (bearer token)) of
        Rejected e \<Rightarrow> Rejected e
      | Resolved response \<Rightarrow>
          if resp_success response
          then Resolved \<lparr>success = True, tasks = None, task = None, error = None\<rparr>
          else Resolved \<lparr>success = False, tasks = None, task = None,
                         error = resp_error response\<rparr>)"

definition getTaskById ::
  "(Request \<Rightarrow> Task ApiResponse Settled) \<Rightarrow> int \<Rightarrow> string \<Rightarrow> Result Settled" where
  "getTaskById apiClient tid token =
     taskResult (apiClient (get_request (''/tasks/'' @ numToString tid) (bearer token)))"

text \<open>
  How a result stands to what the client settled to: a rejection passes through; a
  response that reports failure gives \<open>success = false\<close> with the response's error;
  and a result that carries \<open>tasks\<close> or \<open>task\<close> has \<open>success = true\<close>.
\<close>

definition surfaces :: "'d ApiResponse Settled \<Rightarrow> Result Settled \<Rightarrow> bool" where
  "surfaces settled out =
     (case settled of
        Rejected e \<Rightarrow> out = Rejected e
      | Resolved response \<Rightarrow>
          (case out of
             Rejected e \<Rightarrow> False
           | Resolved r \<Rightarrow>
               (\<not> resp_success response \<longrightarrow> \<not> success r \<and> error r = resp_error response) \<and>
               (tasks r \<noteq> None \<or> task r \<noteq> None \<longrightarrow> success r)))"

section \<open>The new-task form\<close>

text \<open>
  The characters \<open>trim\<close> strips. A character of a string is a code unit below 256, and
  among those the white space and the line terminators of ECMAScript are tab, line feed,
  vertical tab, form feed, carriage return, space and the no-break space U+00A0; the
  others lie above that range.
\<close>

definition isWhiteSpace :: "char \<Rightarrow> bool" where
  "isWhiteSpace c \<longleftrightarrow>
     c \<in> set [CHR 0x09, CHR 0x0A, CHR 0x0B, CHR 0x0C, CHR 0x0D, CHR '' '', CHR 0xA0]"

text \<open>\<open>trim\<close>: the white space at both ends is dropped.\<close>

definition trim :: "string \<Rightarrow> string" where
  "trim s = rev (dropWhile isWhiteSpace (rev (dropWhile isWhiteSpace s)))"

definition upperChar :: "char \<Rightarrow> char" where
  "upperChar c =
     (case map_of (zip ''abcdefghijklmnopqrstuvwxyz'' ''ABCDEFGHIJKLMNOPQRSTUVWXYZ'') c of
        None \<Rightarrow> c
      | Some d \<Rightarrow> d)"

text \<open>\<open>s.charAt(0).toUpperCase() + s.slice(1)\<close>.\<close>

definition capitalize :: "string \<Rightarrow> string" where
  "capitalize s = (case s of [] \<Rightarrow> [] | c # cs \<Rightarrow> upperChar c # cs)"

record NewTaskPage =
  formData :: CreateTaskData
  loading :: bool
  form_error :: string

text \<open>What \<open>handleSubmit\<close> does to the world outside the component's state, in order.\<close>

datatype Effect =
    PreventDefault
  | CallCreateTask CreateTaskData string
  | DispatchTaskUpdated
  | DispatchTaskActivity ActivityDetail
  | RouterPush string
  | ConsoleError

definition createdActivity :: "Host \<Rightarrow> string \<Rightarrow> Task \<Rightarrow> ActivityDetail" where
  "createdActivity h random newTask =
     \<lparr>detail_id = StrId (''act-'' @ numToString (clock h) @ ''-'' @ random),
      detail_type = ''task_created'',
      taskId = task_id newTask,
      taskTitle = title newTask,
      userId = user_id newTask,
      timestamp = created_at newTask,
      message = ''Task \"'' @ title newTask @ ''\" was created''\<rparr>"

text \<open>
  \<open>handleSubmit\<close>: the page's state after the handler has run, and its effects.
  \<open>random\<close> is the text \<open>Math.random().toString(36).substr(2, 9)\<close> comes to.
\<close>

definition handleSubmit ::
  "(Request \<Rightarrow> Task ApiResponse Settled) \<Rightarrow> Host \<Rightarrow> string \<Rightarrow> string \<Rightarrow> NewTaskPage
     \<Rightarrow> NewTaskPage \<times> Effect list" where
  "handleSubmit apiClient h random token st =
     (let st0 = st\<lparr>form_error := []\<rparr>
      in if trim (new_title (formData st)) = []
         then (st0\<lparr>form_error := ''Title is required''\<rparr>, [PreventDefault])
         else
           (let st1 = st0\<lparr>loading := True\<rparr>;
                capitalizedFormData =
                  (formData st)\<lparr>new_title := capitalize (new_title (formData st))\<rparr>;
                called = [PreventDefault, CallCreateTask capitalizedFormData token]
            in case createTask apiClient capitalizedFormData token of
                 Rejected e \<Rightarrow>
                   (st1\<lparr>form_error := ''An error occurred while creating the task'',
                        loading := False\<rparr>,
                    called @ [ConsoleError])
               | Resolved result \<Rightarrow>
                   (case (if success result then task result else None) of
                      Some newTask \<Rightarrow>
                        (st1,
                         called @ [DispatchTaskUpdated,
                                   DispatchTaskActivity (createdActivity h random newTask),
                                   RouterPush ''/tasks''])
                    | None \<Rightarrow>
                        (st1\<lparr>form_error :=
                               (case error result of
                                  None \<Rightarrow> ''Failed to create task''
                                | Some m \<Rightarrow> if m = [] then ''Failed to create task'' else m),
                             loading := False\<rparr>,
                         called))))"

section \<open>The pipeline on arrays in the store\<close>

text \<open>
  \<open>applyFiltersAndSorting\<close> works on array objects: the spread and each \<open>filter\<close>
  make a new array, \<open>sort\<close> reorders the one it is called on, and \<open>setFilteredTasks\<close>
  keeps the reference. A reference is an address of the store; \<open>fresh\<close> is the next
  unused one.
\<close>

type_synonym ref = nat

record Store =
  arrays :: "ref \<Rightarrow> Task list option"
  fresh :: ref
  filteredTasks :: ref

definition alloc :: "Task list \<Rightarrow> Store \<Rightarrow> ref \<times> Store" where
  "alloc xs s = (fresh s, s\<lparr>arrays := (arrays s)(fresh s \<mapsto> xs), fresh := Suc (fresh s)\<rparr>)"

definition spreadArray :: "ref \<Rightarrow> Store \<Rightarrow> (ref \<times> Store) option" where
  "spreadArray r s = map_option (\<lambda>xs. alloc xs s) (arrays s r)"

definition filterArray :: "(Task \<Rightarrow> bool) \<Rightarrow> ref \<Rightarrow> Store \<Rightarrow> (ref \<times> Store) option" where
  "filterArray P r s = map_option (\<lambda>xs. alloc (filter P xs) s) (arrays s r)"

definition sortArray :: "(Task \<Rightarrow> Task \<Rightarrow> int) \<Rightarrow> ref \<Rightarrow> Store \<Rightarrow> Store option" where
  "sortArray c r s =
     map_option (\<lambda>xs. s\<lparr>arrays := (arrays s)(r \<mapsto> sort_cmp c xs)\<rparr>) (arrays s r)"

definition applyFiltersAndSorting_store ::
  "Host \<Rightarrow> Params \<Rightarrow> ref \<Rightarrow> Store \<Rightarrow> Store option" where
  "applyFiltersAndSorting_store h p tasksToFilter s =
     do {
       (result0, s0) \<leftarrow> spreadArray tasksToFilter s;
       let today = getToday h;
       (result1, s1) \<leftarrow>
         (if searchTerm p \<noteq> []
          then filterArray (matchesSearch (toLowerCase (searchTerm p))) result0 s0
          else Some (result0, s0));
       (result2, s2) \<leftarrow> filterArray (statusKeeps h (statusFilter p) today) result1 s1;
       s3 \<leftarrow> sortArray (compareFn h p) result2 s2;
       Some (s3\<lparr>filteredTasks := result2\<rparr>)
     }"

section \<open>Sample values\<close>

text \<open>A collation for the sample host: by code unit, a proper prefix first.\<close>

fun codeUnitCompare :: "string \<Rightarrow> string \<Rightarrow> int" where
  "codeUnitCompare [] [] = 0"
| "codeUnitCompare [] (b # t) = - 1"
| "codeUnitCompare (a # s) [] = 1"
| "codeUnitCompare (a # s) (b # t) =
     (if a = b then codeUnitCompare s t
      else if (of_char a :: nat) < of_char b then - 1 else 1)"

definition hostUTC :: Host where
  "hostUTC =
     \<lparr>clock = 1700000000000, tzOffset = 0, localeCompare = codeUnitCompare,
      toLocaleTimeString = (\<lambda>d. []), toLocaleWeekday = (\<lambda>d. []),
      toLocaleShortDate = (\<lambda>d. [])\<rparr>"

definition taskA :: Task where
  "taskA =
     \<lparr>task_id = 2, title = ''A'', description = None, completed = False, priority = High,
      due_date = None, recurring = RNone, category = Other, created_at = 1699000000000,
      user_id = 1\<rparr>"

definition taskB :: Task where
  "taskB =
     \<lparr>task_id = 1, title = ''B'', description = None, completed = False, priority = Low,
      due_date = None, recurring = RNone, category = Other, created_at = 1698000000000,
      user_id = 1\<rparr>"

definition taskDue :: Task where
  "taskDue =
     \<lparr>task_id = 3, title = ''Pay rent'', description = Some ''before the first'',
      completed = False, priority = Medium, due_date = Some 1700050000000,
      recurring = Monthly, category = Home, created_at = 1699500000000, user_id = 1\<rparr>"

definition taskLate :: Task where
  "taskLate =
     \<lparr>task_id = 4, title = ''File report'', description = None,
      completed = False, priority = High, due_date = Some 1699900000000,
      recurring = RNone, category = Work, created_at = 1699400000000, user_id = 1\<rparr>"

definition params :: "StatusFilter \<Rightarrow> SortKey \<Rightarrow> SortOrder \<Rightarrow> Params" where
  "params f k d = \<lparr>searchTerm = [], statusFilter = f, sortBy = k, sortOrder = d\<rparr>"

text \<open>The same host two days later.\<close>

definition hostLater :: Host where
  "hostLater = hostUTC\<lparr>clock := 1700200000000\<rparr>"

definition serverItem :: ActivityItem where
  "serverItem =
     \<lparr>act_id = NumId 7, action = ''task_updated'', task_title = ''File report'',
      act_created_at = 1699950000000\<rparr>"

text \<open>A response of the server that lists one record twice.\<close>

definition repeatedResponse :: "ActivityItem list ApiResponse Settled" where
  "repeatedResponse =
     Resolved \<lparr>resp_success = True, resp_data = Some [serverItem, serverItem],
               resp_error = None\<rparr>"

definition localDetail :: ActivityDetail where
  "localDetail = createdActivity hostUTC ''k3j9x0a1b'' taskDue"

text \<open>A response of the server with twelve records, each with an identifier of its own.\<close>

definition twelveResponse :: "ActivityItem list ApiResponse Settled" where
  "twelveResponse =
     Resolved
       \<lparr>resp_success = True,
        resp_data =
          Some (map (\<lambda>n. serverItem\<lparr>act_id := NumId n\<rparr>) [1, 2, 3, 4, 5, 6, 7, 8, 9, 10, 11, 12]),
        resp_error = None\<rparr>"

text \<open>A feed that holds ten records of the server.\<close>

definition tenFeed :: FeedState where
  "tenFeed =
     \<lparr>activities = map (\<lambda>n. serverItem\<lparr>act_id := NumId n\<rparr>) [1, 2, 3, 4, 5, 6, 7, 8, 9, 10],
      feed_loading = False, feed_error = None\<rparr>"

text \<open>A client that refuses every request, and one that answers with a task.\<close>

definition refusingClient :: "Request \<Rightarrow> 'd ApiResponse Settled" where
  "refusingClient req =
     Resolved \<lparr>resp_success = False, resp_data = None, resp_error = Some ''Not authenticated''\<rparr>"

definition answeringClient :: "Request \<Rightarrow> Task ApiResponse Settled" where
  "answeringClient req =
     Resolved \<lparr>resp_success = True, resp_data = Some taskDue, resp_error = None\<rparr>"

text \<open>
  The new-task form as it starts, with a title of a blank, a no-break space and a tab
  typed in.
\<close>

definition blankForm :: NewTaskPage where
  "blankForm =
     \<lparr>formData =
        \<lparr>new_title = [CHR '' '', CHR 0xA0, CHR 0x09], new_description = Some [],
         new_priority = Some Medium, new_due_date = Some [], new_recurring = Some RNone,
         new_category = Some Other\<rparr>,
      loading = False, form_error = []\<rparr>"

text \<open>A store that holds the fetched tasks at address 0 and the empty list shown so far.\<close>

definition store0 :: Store where
  "store0 =
     \<lparr>arrays = (Map.empty(0 \<mapsto> [taskB, taskA, taskDue]))(1 \<mapsto> []), fresh = 2,
      filteredTasks = 1\<rparr>"

text \<open>The update that marks a task as done.\<close>

definition markDone :: UpdateTaskData where
  "markDone =
     \<lparr>upd_title = None, upd_description = None, upd_completed = Some True,
      upd_priority = None, upd_due_date = None, upd_recurring = None, upd_category = None\<rparr>"

section \<open>Sorting with a comparator\<close>

lemma set_insert_cmp: "set (insert_cmp c x ys) = insert x (set ys)"
  by (induction ys) auto

lemma set_sort_cmp: "set (sort_cmp c xs) = set xs"
  by (induction xs) (simp_all add: sort_cmp_def set_insert_cmp)

lemma length_insert_cmp: "length (insert_cmp c x ys) = Suc (length ys)"
  by (induction ys) auto

lemma length_sort_cmp: "length (sort_cmp c xs) = length xs"
  by (induction xs) (simp_all add: sort_cmp_def length_insert_cmp)

lemma ordered_insert_cmp:
  assumes "consistent c" and "ordered_by c ys"
  shows "ordered_by c (insert_cmp c x ys)"
  using assms(2)
proof (induction ys)
  case Nil
  then show ?case by simp
next
  case (Cons y ys)
  have tot: "\<And>a b. (c a b < 0) = (0 < c b a)"
    and tr: "\<And>a b d. c a b \<le> 0 \<Longrightarrow> c b d \<le> 0 \<Longrightarrow> c a d \<le> 0"
    using assms(1) unfolding consistent_def by blast+
  show ?case
  proof (cases "c x y \<le> 0")
    case True
    then have "\<forall>z\<in>set ys. c x z \<le> 0"
      using Cons.prems tr by auto
    with True Cons.prems show ?thesis by simp
  next
    case False
    then have "c y x \<le> 0" using tot [of y x] by simp
    with False Cons show ?thesis
      by (auto simp: set_insert_cmp)
  qed
qed

lemma ordered_sort_cmp: "consistent c \<Longrightarrow> ordered_by c (sort_cmp c xs)"
  by (induction xs) (simp_all add: sort_cmp_def ordered_insert_cmp)

lemma sort_cmp_ordered_id: "ordered_by c xs \<Longrightarrow> sort_cmp c xs = xs"
proof (induction xs)
  case Nil
  then show ?case by (simp add: sort_cmp_def)
next
  case (Cons x xs)
  then have "sort_cmp c xs = xs" by simp
  then have "sort_cmp c (x # xs) = insert_cmp c x xs"
    by (simp add: sort_cmp_def)
  also have "\<dots> = x # xs"
    using Cons.prems by (cases xs) auto
  finally show ?case .
qed


lemma consistent_uminus:
  assumes "consistent c"
  shows "consistent (\<lambda>a b. - c a b)"
proof -
  have anti: "\<And>a b. (c a b < 0) = (0 < c b a)"
    and tr: "\<And>a b d. c a b \<le> 0 \<Longrightarrow> c b d \<le> 0 \<Longrightarrow> c a d \<le> 0"
    using assms unfolding consistent_def by blast+
  have ge: "c a b \<ge> 0 \<longleftrightarrow> c b a \<le> 0" for a b
    using anti [of a b] by linarith
  have "(- c a b < 0) = (0 < - c b a)" for a b
    using anti [of b a] by linarith
  moreover have "- c a d \<le> 0" if "- c a b \<le> 0" "- c b d \<le> 0" for a b d
  proof -
    from that have "c b a \<le> 0" "c d b \<le> 0" using ge by simp_all
    then have "c d a \<le> 0" using tr by blast
    then show ?thesis using ge by simp
  qed
  ultimately show ?thesis unfolding consistent_def by blast
qed

lemma consistent_on_key:
  assumes "consistent c"
  shows "consistent (\<lambda>a b. c (f a) (f b))"
  using assms unfolding consistent_def by blast

lemma consistent_comparison:
  assumes "k = Title \<longrightarrow> consistent (localeCompare h)"
  shows "consistent (comparison h k)"
proof (cases k)
  case Title
  with assms have "consistent (localeCompare h)" by simp
  then have "consistent (\<lambda>a b. localeCompare h (title a) (title b))"
    by (rule consistent_on_key)
  moreover have "comparison h Title = (\<lambda>a b. localeCompare h (title a) (title b))"
    by (intro ext) (simp add: comparison_def)
  ultimately show ?thesis using Title by simp
next
  case Due_date
  show ?thesis 
   unfolding consistent_def comparison_def Due_date
   by (auto split: option.splits)
next
  case ByPriority
  show ?thesis 
   unfolding consistent_def comparison_def ByPriority
   by auto
next
  case Created_at
  show ?thesis 
   unfolding consistent_def comparison_def Created_at
   by auto
qed

lemma consistent_compareFn:
  assumes "sortBy p = Title \<longrightarrow> consistent (localeCompare h)"
  shows "consistent (compareFn h p)"
proof -
  have c: "consistent (comparison h (sortBy p))"
    using assms by (rule consistent_comparison)
  show ?thesis
  proof (cases "sortOrder p")
    case Asc
    then have "compareFn h p = comparison h (sortBy p)"
      by (intro ext) (simp add: compareFn_def)
    with c show ?thesis by simp
  next
    case Desc
    then have "compareFn h p = (\<lambda>a b. - comparison h (sortBy p) a b)"
      by (intro ext) (simp add: compareFn_def)
    with consistent_uminus [OF c] show ?thesis by simp
  qed
qed


lemma codeUnitCompare_sym: "(codeUnitCompare a b < 0) = (0 < codeUnitCompare b a)"
  by (induction a b rule: codeUnitCompare.induct) auto

lemma codeUnitCompare_trans:
  "codeUnitCompare a b \<le> 0 \<Longrightarrow> codeUnitCompare b d \<le> 0 \<Longrightarrow> codeUnitCompare a d \<le> 0"
proof (induction a b arbitrary: d rule: codeUnitCompare.induct)
  case 1
  then show ?case by simp
next
  case (2 b t)
  then show ?case by (cases d) auto
next
  case (3 a s)
  then show ?case by simp
next
  case (4 a s b t)
  then show ?case
    by (cases d) (auto split: if_splits)
qed

lemma consistent_codeUnitCompare: "consistent codeUnitCompare"
  unfolding consistent_def using codeUnitCompare_sym codeUnitCompare_trans by blast

lemma filter_sort_cmp_id:
  assumes "\<forall>x\<in>set xs. P x"
  shows "filter P (sort_cmp c xs) = sort_cmp c xs"
  using assms by (simp add: set_sort_cmp)

lemma ordered_applyFiltersAndSorting:
  assumes "sortBy p = Title \<longrightarrow> consistent (localeCompare h)"
  shows "ordered_by (compareFn h p) (applyFiltersAndSorting h p xs)"
  unfolding applyFiltersAndSorting_def Let_def
  by (rule ordered_sort_cmp) (rule consistent_compareFn [OF assms])


section \<open>The order of the task list\<close>

text \<open>
  Claim C1. Sorted by priority in direction \<open>desc\<close>, with an empty search term and the
  status filter \<open>all\<close>, the collection of a low-priority task \<open>B\<close> and a high-priority
  task \<open>A\<close> comes out as \<open>B\<close>, \<open>A\<close>: the priority branch computes the rank of \<open>b\<close>
  minus the rank of \<open>a\<close>, and \<open>desc\<close> negates it, so the low-priority task is first.
\<close>

theorem priority_desc_low_first:
  "map title (applyFiltersAndSorting hostUTC (params All ByPriority Desc) [taskB, taskA])
     = [''B'', ''A'']"
  by (simp add: applyFiltersAndSorting_def sort_cmp_def compareFn_def comparison_def
      statusKeeps_def params_def taskA_def taskB_def)

text \<open>
  Claim C2, as the code has it. Sorted by due date, the direction decides the side of
  the tasks without one: in direction \<open>asc\<close> no task without a due date comes before a
  task with one, and in direction \<open>desc\<close> no task with a due date comes before a task
  without one.
\<close>

theorem due_date_missing_position:
  assumes "sortBy p = Due_date"
    and "i < j" and "j < length (applyFiltersAndSorting h p xs)"
  shows "(sortOrder p = Asc \<longrightarrow>
            due_date (applyFiltersAndSorting h p xs ! i) = None \<longrightarrow>
            due_date (applyFiltersAndSorting h p xs ! j) = None) \<and>
         (sortOrder p = Desc \<longrightarrow>
            due_date (applyFiltersAndSorting h p xs ! j) = None \<longrightarrow>
            due_date (applyFiltersAndSorting h p xs ! i) = None)"
proof -
  let ?out = "applyFiltersAndSorting h p xs"
  have "ordered_by (compareFn h p) ?out"
    using assms(1) by (intro ordered_applyFiltersAndSorting) simp
  then have le: "compareFn h p (?out ! i) (?out ! j) \<le> 0"
    using assms(2,3) by (rule sorted_wrt_nth_less)
  show ?thesis
    using le assms(1)
    by (cases "sortOrder p")
       (auto simp: compareFn_def comparison_def split: option.splits)
qed


theorem due_date_missing_position_witness:
  "sortBy (params All Due_date Asc) = Due_date \<and> sortBy (params All Due_date Desc) = Due_date \<and>
   (1::nat) < 2 \<and>
   2 < length (applyFiltersAndSorting hostUTC (params All Due_date Asc) [taskA, taskB, taskDue]) \<and>
   2 < length (applyFiltersAndSorting hostUTC (params All Due_date Desc) [taskDue, taskA, taskB]) \<and>
   applyFiltersAndSorting hostUTC (params All Due_date Asc) [taskA, taskB, taskDue]
     = [taskDue, taskA, taskB] \<and>
   due_date (applyFiltersAndSorting hostUTC (params All Due_date Asc) [taskA, taskB, taskDue] ! 2)
     = None \<and>
   applyFiltersAndSorting hostUTC (params All Due_date Desc) [taskDue, taskA, taskB]
     = [taskA, taskB, taskDue] \<and>
   due_date (applyFiltersAndSorting hostUTC (params All Due_date Desc) [taskDue, taskA, taskB] ! 1)
     = None"
  using due_date_missing_position
          [of "params All Due_date Asc" 1 2 hostUTC "[taskA, taskB, taskDue]"]
        due_date_missing_position
          [of "params All Due_date Desc" 1 2 hostUTC "[taskDue, taskA, taskB]"]
  by (simp add: applyFiltersAndSorting_def sort_cmp_def compareFn_def comparison_def
      statusKeeps_def params_def taskA_def taskB_def taskDue_def)

text \<open>
  In direction \<open>desc\<close> the task without a due date comes before the task with one.
\<close>

theorem due_date_desc_missing_first:
  "applyFiltersAndSorting hostUTC (params All Due_date Desc) [taskDue, taskA] = [taskA, taskDue]
   \<and> due_date taskA = None \<and> due_date taskDue = Some 1700050000000"
  by (simp add: applyFiltersAndSorting_def sort_cmp_def compareFn_def comparison_def
      statusKeeps_def params_def taskA_def taskDue_def)

text \<open>
  Claim C6. The pipeline is idempotent: with the same host (so the same reference time)
  and the same search term, status filter, sort key and direction, applying it to its
  own output gives that output again. The collation is taken to be a consistent
  comparator, as \<open>localeCompare\<close> is.
\<close>

theorem applyFiltersAndSorting_idempotent:
  assumes "sortBy p = Title \<longrightarrow> consistent (localeCompare h)"
  shows "applyFiltersAndSorting h p (applyFiltersAndSorting h p xs) = applyFiltersAndSorting h p xs"
proof -
  define S where "S = matchesSearch (toLowerCase (searchTerm p))"
  define K where "K = statusKeeps h (statusFilter p) (getToday h)"
  define searched where "searched = (if searchTerm p \<noteq> [] then filter S xs else xs)"
  define out where "out = sort_cmp (compareFn h p) (filter K searched)"
  have out: "applyFiltersAndSorting h p xs = out"
    by (simp add: applyFiltersAndSorting_def out_def searched_def S_def K_def)
  have mem: "set out = {x \<in> set searched. K x}"
    by (simp add: out_def set_sort_cmp)
  have "searchTerm p \<noteq> [] \<Longrightarrow> \<forall>x\<in>set out. S x"
    using mem by (simp add: searched_def)
  then have s: "(if searchTerm p \<noteq> [] then filter S out else out) = out"
    by simp
  have k: "filter K out = out"
    using mem by simp
  have "ordered_by (compareFn h p) out"
    using ordered_applyFiltersAndSorting [OF assms, of xs] out by simp
  then have o: "sort_cmp (compareFn h p) out = out"
    by (rule sort_cmp_ordered_id)
  have "applyFiltersAndSorting h p out =
          sort_cmp (compareFn h p) (filter K (if searchTerm p \<noteq> [] then filter S out else out))"
    unfolding applyFiltersAndSorting_def Let_def S_def K_def ..
  also have "\<dots> = out"
    unfolding s k o ..
  finally have "applyFiltersAndSorting h p out = out" .
  with out show ?thesis by simp
qed


theorem applyFiltersAndSorting_idempotent_witness:
  "sortBy (params Active Title Desc) = Title \<and> consistent (localeCompare hostUTC) \<and>
   applyFiltersAndSorting hostUTC (params Active Title Desc)
     (applyFiltersAndSorting hostUTC (params Active Title Desc) [taskA, taskB, taskDue])
     = applyFiltersAndSorting hostUTC (params Active Title Desc) [taskA, taskB, taskDue] \<and>
   applyFiltersAndSorting hostUTC (params Active Title Desc) [taskA, taskB, taskDue]
     = [taskDue, taskB, taskA]"
proof -
  have c: "consistent (localeCompare hostUTC)"
    by (simp add: hostUTC_def consistent_codeUnitCompare)
  have v: "applyFiltersAndSorting hostUTC (params Active Title Desc) [taskA, taskB, taskDue]
             = [taskDue, taskB, taskA]"
    by (simp add: applyFiltersAndSorting_def sort_cmp_def compareFn_def comparison_def
        statusKeeps_def params_def hostUTC_def taskA_def taskB_def taskDue_def)
  show ?thesis
    using applyFiltersAndSorting_idempotent
            [of "params Active Title Desc" hostUTC "[taskA, taskB, taskDue]"] c v
    by (simp add: params_def)
qed

section \<open>The status filter\<close>

lemma setHours0_le: "setHours0 h d \<le> d"
  unfolding setHours0_def msPerDay_def
  using pos_mod_sign [of 86400000 "d + tzOffset h"] by simp

lemma setHours0_lt_iff: "setHours0 h d < getToday h \<longleftrightarrow> d < getToday h"
proof -
  define D :: int where "D = msPerDay"
  have D: "0 < D" by (simp add: D_def msPerDay_def)
  define q where "q = (d + tzOffset h) div D"
  define m where "m = (d + tzOffset h) mod D"
  define r where "r = (clock h + tzOffset h) div D"
  have m: "0 \<le> m" "m < D"
    using D by (simp_all add: m_def)
  have dm: "d + tzOffset h = D * q + m"
    by (simp add: q_def m_def)
  have a: "setHours0 h d = D * q - tzOffset h"
    unfolding setHours0_def D_def [symmetric] m_def [symmetric] using dm by simp
  have b: "getToday h = D * r - tzOffset h"
    unfolding getToday_def setHours0_def r_def D_def [symmetric]
    by (simp add: minus_mod_eq_mult_div [symmetric] algebra_simps)
  have qr: "D * q < D * r \<longleftrightarrow> q < r"
    using D by simp
  show ?thesis
  proof
    assume "setHours0 h d < getToday h"
    then have "q < r" using a b qr by simp
    then have "q + 1 \<le> r" by simp
    then have "D * (q + 1) \<le> D * r"
      using D by (intro mult_left_mono) simp_all
    then have "D * q + D \<le> D * r"
      by (simp add: algebra_simps)
    then have "D * q + m < D * r"
      using m by linarith
    then show "d < getToday h"
      using dm b by simp
  next
    assume "d < getToday h"
    then have "D * q + m < D * r" using dm b by simp
    then have "D * q < D * r" using m by linarith
    then show "setHours0 h d < getToday h" using a b by simp
  qed
qed

lemma set_applyFiltersAndSorting:
  "set (applyFiltersAndSorting h p xs) =
     {t \<in> set xs. (searchTerm p = [] \<or> matchesSearch (toLowerCase (searchTerm p)) t) \<and>
                   statusKeeps h (statusFilter p) (getToday h) t}"
proof (cases "searchTerm p = []")
  case True
  then show ?thesis
    by (simp add: applyFiltersAndSorting_def Let_def set_sort_cmp)
next
  case False
  then show ?thesis
    by (simp add: applyFiltersAndSorting_def Let_def set_sort_cmp conj_commute)
qed

text \<open>
  Claim C4. The status filter \<open>overdue\<close> keeps a task exactly when it is incomplete and
  has a due date whose day starts before the start of today; \<open>upcoming\<close> keeps it
  exactly when it is incomplete and has a due date whose day starts at or after the start
  of today; a task with no due date is kept by neither. The day of a due date starts
  before today exactly when the due date itself is before the start of today. (A task
  also has to pass the search filter to be displayed.)
\<close>

theorem overdue_upcoming_filter:
  "(statusFilter p = Overdue \<longrightarrow>
      (t \<in> set (applyFiltersAndSorting h p xs) \<longleftrightarrow>
         t \<in> set xs \<and> (searchTerm p = [] \<or> matchesSearch (toLowerCase (searchTerm p)) t) \<and>
         \<not> completed t \<and> (\<exists>due. due_date t = Some due \<and> setHours0 h due < getToday h))) \<and>
   (statusFilter p = Upcoming \<longrightarrow>
      (t \<in> set (applyFiltersAndSorting h p xs) \<longleftrightarrow>
         t \<in> set xs \<and> (searchTerm p = [] \<or> matchesSearch (toLowerCase (searchTerm p)) t) \<and>
         \<not> completed t \<and> (\<exists>due. due_date t = Some due \<and> getToday h \<le> setHours0 h due))) \<and>
   (statusFilter p = Overdue \<or> statusFilter p = Upcoming \<longrightarrow> due_date t = None \<longrightarrow>
      t \<notin> set (applyFiltersAndSorting h p xs)) \<and>
   (setHours0 h due < getToday h \<longleftrightarrow> due < getToday h)"
proof -
  have o: "statusKeeps h Overdue (getToday h) t \<longleftrightarrow>
             \<not> completed t \<and> (\<exists>due. due_date t = Some due \<and> setHours0 h due < getToday h)"
    by (cases "due_date t") (simp_all add: statusKeeps_def)
  have u: "statusKeeps h Upcoming (getToday h) t \<longleftrightarrow>
             \<not> completed t \<and> (\<exists>due. due_date t = Some due \<and> getToday h \<le> setHours0 h due)"
    by (cases "due_date t") (simp_all add: statusKeeps_def)
  show ?thesis
    using o u setHours0_lt_iff [of h due]
    by (auto simp: set_applyFiltersAndSorting)
qed

theorem overdue_upcoming_filter_witness:
  "statusFilter (params Overdue Created_at Desc) = Overdue \<and>
   statusFilter (params Upcoming Created_at Desc) = Upcoming \<and>
   getToday hostUTC = 1699920000000 \<and>
   taskLate \<in> set (applyFiltersAndSorting hostUTC (params Overdue Created_at Desc) [taskA, taskLate, taskDue]) \<and>
   taskDue \<notin> set (applyFiltersAndSorting hostUTC (params Overdue Created_at Desc) [taskA, taskLate, taskDue]) \<and>
   taskDue \<in> set (applyFiltersAndSorting hostUTC (params Upcoming Created_at Desc) [taskA, taskLate, taskDue]) \<and>
   taskLate \<notin> set (applyFiltersAndSorting hostUTC (params Upcoming Created_at Desc) [taskA, taskLate, taskDue]) \<and>
   due_date taskA = None \<and>
   taskA \<notin> set (applyFiltersAndSorting hostUTC (params Overdue Created_at Desc) [taskA, taskLate, taskDue]) \<and>
   taskA \<notin> set (applyFiltersAndSorting hostUTC (params Upcoming Created_at Desc) [taskA, taskLate, taskDue])"
  using overdue_upcoming_filter [of "params Overdue Created_at Desc" taskLate hostUTC "[taskA, taskLate, taskDue]" 0]
    overdue_upcoming_filter [of "params Overdue Created_at Desc" taskDue hostUTC "[taskA, taskLate, taskDue]" 0]
    overdue_upcoming_filter [of "params Upcoming Created_at Desc" taskDue hostUTC "[taskA, taskLate, taskDue]" 0]
    overdue_upcoming_filter [of "params Upcoming Created_at Desc" taskLate hostUTC "[taskA, taskLate, taskDue]" 0]
    overdue_upcoming_filter [of "params Overdue Created_at Desc" taskA hostUTC "[taskA, taskLate, taskDue]" 0]
    overdue_upcoming_filter [of "params Upcoming Created_at Desc" taskA hostUTC "[taskA, taskLate, taskDue]" 0]
  by (simp add: params_def hostUTC_def getToday_def setHours0_def msPerDay_def
      taskA_def taskLate_def taskDue_def)

section \<open>What the displayed list depends on\<close>

text \<open>
  Claim C5, as the code has it. Besides the search term, the status filter, the sort key,
  the direction and the task collection, the pipeline reads the host: its clock, through
  \<open>getToday\<close>, and its time zone and collation. Two evaluations with the same five
  inputs on hosts of the same time zone and collation give the same list when they run
  on the same local day, or when the status filter is \<open>all\<close>, \<open>active\<close> or
  \<open>completed\<close>.
\<close>

theorem displayed_list_function_of_today:
  assumes "tzOffset h1 = tzOffset h2" and "localeCompare h1 = localeCompare h2"
    and "getToday h1 = getToday h2 \<or> statusFilter p \<in> {All, Active, Completed}"
  shows "applyFiltersAndSorting h1 p xs = applyFiltersAndSorting h2 p xs"
proof -
  have s: "setHours0 h1 = setHours0 h2"
    using assms(1) by (intro ext) (simp add: setHours0_def)
  have c: "compareFn h1 p = compareFn h2 p"
    using assms(2) by (intro ext) (simp add: compareFn_def comparison_def split: SortKey.splits)
  have k: "statusKeeps h1 (statusFilter p) (getToday h1) = statusKeeps h2 (statusFilter p) (getToday h2)"
  proof (intro ext)
    fix t
    show "statusKeeps h1 (statusFilter p) (getToday h1) t
            = statusKeeps h2 (statusFilter p) (getToday h2) t"
      using assms(3) s by (cases "statusFilter p") (auto simp: statusKeeps_def)
  qed
  show ?thesis
    by (simp add: applyFiltersAndSorting_def Let_def c k)
qed

theorem displayed_list_function_of_today_witness:
  "tzOffset (hostUTC\<lparr>clock := 1700001000000\<rparr>) = tzOffset hostUTC \<and>
   localeCompare (hostUTC\<lparr>clock := 1700001000000\<rparr>) = localeCompare hostUTC \<and>
   getToday (hostUTC\<lparr>clock := 1700001000000\<rparr>) = getToday hostUTC \<and>
   applyFiltersAndSorting (hostUTC\<lparr>clock := 1700001000000\<rparr>) (params Overdue Created_at Desc)
       [taskDue, taskLate]
     = applyFiltersAndSorting hostUTC (params Overdue Created_at Desc) [taskDue, taskLate] \<and>
   applyFiltersAndSorting hostUTC (params Overdue Created_at Desc) [taskDue, taskLate] = [taskLate]"
proof -
  have t: "getToday (hostUTC\<lparr>clock := 1700001000000\<rparr>) = getToday hostUTC"
    by (simp add: hostUTC_def getToday_def setHours0_def msPerDay_def)
  have v: "applyFiltersAndSorting hostUTC (params Overdue Created_at Desc) [taskDue, taskLate] = [taskLate]"
    by (simp add: applyFiltersAndSorting_def sort_cmp_def statusKeeps_def params_def
        hostUTC_def getToday_def setHours0_def msPerDay_def taskDue_def taskLate_def)
  show ?thesis
    using displayed_list_function_of_today
            [of "hostUTC\<lparr>clock := 1700001000000\<rparr>" hostUTC "params Overdue Created_at Desc"
                "[taskDue, taskLate]"] t v
    by simp
qed

text \<open>
  With the same five inputs, the list differs between two readings of the clock: a task
  due on 15 November is not overdue on the 14th and is overdue on the 17th.
\<close>

theorem displayed_list_depends_on_clock:
  "applyFiltersAndSorting hostUTC (params Overdue Created_at Desc) [taskDue] = [] \<and>
   applyFiltersAndSorting hostLater (params Overdue Created_at Desc) [taskDue] = [taskDue]"
  by (simp add: applyFiltersAndSorting_def sort_cmp_def statusKeeps_def params_def
      hostLater_def hostUTC_def getToday_def setHours0_def msPerDay_def taskDue_def)

section \<open>The activity feed after a merge\<close>

lemma length_mergeActivity: "length (mergeActivity d prev) \<le> 10"
  by (simp add: mergeActivity_def)

lemma mergeActivity_same_id:
  "filter (\<lambda>a. act_id a = detail_id d) (mergeActivity d prev) = [convertedActivity d]"
proof -
  have "filter (\<lambda>a. act_id a = detail_id d)
          (filter (\<lambda>a. act_id a \<noteq> act_id (convertedActivity d)) prev) = []"
    by (simp add: convertedActivity_def filter_empty_conv)
  then have "filter (\<lambda>a. act_id a = detail_id d)
          (take n (filter (\<lambda>a. act_id a \<noteq> act_id (convertedActivity d)) prev)) = []" for n
    by (metis filter_empty_conv in_set_takeD)
  then show ?thesis
    by (simp add: mergeActivity_def Let_def convertedActivity_def)
qed

lemma distinct_mergeActivity:
  assumes "distinct (map act_id prev)"
  shows "distinct (map act_id (mergeActivity d prev))"
proof -
  let ?new = "convertedActivity d"
  let ?kept = "filter (\<lambda>a. act_id a \<noteq> act_id ?new) prev"
  have "distinct (map act_id ?kept)"
    using assms by (rule distinct_map_filter)
  moreover have "act_id ?new \<notin> set (map act_id ?kept)"
    by auto
  ultimately have "distinct (map act_id (?new # ?kept))"
    by simp
  then have "distinct (take 10 (map act_id (?new # ?kept)))"
    by (rule distinct_take)
  then show ?thesis
    by (simp add: mergeActivity_def Let_def take_map)
qed

lemma clock_digits: "numToString 1700000000000 = ''1700000000000''"
  by (simp add: numToString_def natToString.simps digitChar_def)


text \<open>A fetch keeps the feed within ten entries.\<close>

lemma fetchActivities_bounded:
  assumes "length (activities st) \<le> 10"
  shows "length (activities (fetchActivities token settled st)) \<le> 10"
  using assms
  by (auto simp: fetchActivities_def split: Settled.splits option.splits)

lemma fetchActivities_bounded_witness:
  "length (activities initialFeed) \<le> 10 \<and>
   activities (fetchActivities (Some ''token'')
      (Resolved \<lparr>resp_success = True,
                 resp_data = Some (activities tenFeed @ activities tenFeed),
                 resp_error = None\<rparr>) initialFeed)
     = activities tenFeed"
  using fetchActivities_bounded [of initialFeed "Some ''token''"
      "Resolved \<lparr>resp_success = True,
                 resp_data = Some (activities tenFeed @ activities tenFeed),
                 resp_error = None\<rparr>"]
  by (simp add: fetchActivities_def initialFeed_def tenFeed_def)

text \<open>
  A fetch whose response names no identifier twice, and a merge, keep a feed of at most
  ten entries with no identifier twice that way; so does every run of them.
\<close>

lemma distinct_fetchActivities:
  assumes "distinctIds (Fetched token settled)" and "distinct (map act_id (activities st))"
  shows "distinct (map act_id (activities (fetchActivities token settled st)))"
proof (cases settled)
  case (Rejected e)
  then show ?thesis using assms(2) by (simp add: fetchActivities_def)
next
  case (Resolved response)
  show ?thesis
  proof (cases "resp_data response")
    case None
    then show ?thesis using assms(2) Resolved by (simp add: fetchActivities_def)
  next
    case (Some d)
    then have "distinct (map act_id d)" using assms(1) Resolved by simp
    then have "distinct (take 10 (map act_id d))" by (rule distinct_take)
    then show ?thesis using assms(2) Resolved Some
      by (simp add: fetchActivities_def take_map)
  qed
qed

lemma feedStep_invariant:
  assumes "distinctIds ev"
    and "distinct (map act_id (activities st))" and "length (activities st) \<le> 10"
  shows "distinct (map act_id (activities (feedStep st ev))) \<and>
         length (activities (feedStep st ev)) \<le> 10"
proof (cases ev)
  case (Fetched token settled)
  then show ?thesis
    using assms distinct_fetchActivities [of token settled st]
      fetchActivities_bounded [of st token settled]
    by simp
next
  case (Emitted d)
  then show ?thesis
    using assms(2) distinct_mergeActivity [of "activities st" d]
      length_mergeActivity [of d "activities st"]
    by (simp add: handleTaskActivity_def)
qed

lemma runFeed_invariant:
  assumes "list_all distinctIds evs"
    and "distinct (map act_id (activities st))" and "length (activities st) \<le> 10"
  shows "distinct (map act_id (activities (runFeed evs st))) \<and>
         length (activities (runFeed evs st)) \<le> 10"
  using assms
proof (induction evs arbitrary: st)
  case Nil
  then show ?case by (simp add: runFeed_def)
next
  case (Cons ev evs)
  then have "distinctIds ev" and rest: "list_all distinctIds evs" by simp_all
  then have "distinct (map act_id (activities (feedStep st ev))) \<and>
             length (activities (feedStep st ev)) \<le> 10"
    using Cons.prems(2,3) by (intro feedStep_invariant)
  then have "distinct (map act_id (activities (runFeed evs (feedStep st ev)))) \<and>
             length (activities (runFeed evs (feedStep st ev))) \<le> 10"
    using Cons.IH [OF rest] by blast
  then show ?case by (simp add: runFeed_def)
qed

text \<open>
  Claim C3, as the code has it. After a merge step the feed is the new item followed by
  the entries it held before whose identifier differs from the new item's, in their
  order, cut to ten entries; the loading flag and the error are as before. So the feed
  holds at most ten entries, the new item is its first entry and the only entry with the
  new item's identifier, and a feed that held no identifier twice before the step holds
  none twice after it. Every feed reached from the initial one by fetches of responses
  that name no identifier twice and by merges holds at most ten entries and no
  identifier twice.
\<close>

theorem handleTaskActivity_merge:
  "activities (handleTaskActivity d st)
     = take 10 (convertedActivity d # filter (\<lambda>a. act_id a \<noteq> detail_id d) (activities st)) \<and>
   feed_loading (handleTaskActivity d st) = feed_loading st \<and>
   feed_error (handleTaskActivity d st) = feed_error st \<and>
   length (activities (handleTaskActivity d st)) \<le> 10 \<and>
   hd (activities (handleTaskActivity d st)) = convertedActivity d \<and>
   filter (\<lambda>a. act_id a = detail_id d) (activities (handleTaskActivity d st))
     = [convertedActivity d] \<and>
   (distinct (map act_id (activities st)) \<longrightarrow>
      distinct (map act_id (activities (handleTaskActivity d st)))) \<and>
   (list_all distinctIds evs \<longrightarrow>
      distinct (map act_id (activities (runFeed evs initialFeed))) \<and>
      length (activities (runFeed evs initialFeed)) \<le> 10)"
proof -
  have e: "activities (handleTaskActivity d st)
     = take 10 (convertedActivity d # filter (\<lambda>a. act_id a \<noteq> detail_id d) (activities st))"
    by (simp add: handleTaskActivity_def mergeActivity_def convertedActivity_def)
  have r: "list_all distinctIds evs \<Longrightarrow>
      distinct (map act_id (activities (runFeed evs initialFeed))) \<and>
      length (activities (runFeed evs initialFeed)) \<le> 10"
    by (rule runFeed_invariant) (simp_all add: initialFeed_def)
  have m: "activities (handleTaskActivity d st) = mergeActivity d (activities st)"
    by (simp add: handleTaskActivity_def)
  have h: "hd (mergeActivity d (activities st)) = convertedActivity d"
    by (simp add: mergeActivity_def)
  show ?thesis
    using e r length_mergeActivity [of d "activities st"]
      mergeActivity_same_id [of d "activities st"]
      distinct_mergeActivity [of "activities st" d] h
    unfolding m by (simp add: handleTaskActivity_def)
qed

theorem handleTaskActivity_merge_witness:
  "distinct (map act_id (activities tenFeed)) \<and>
   list_all distinctIds [Fetched (Some ''token'') twelveResponse, Emitted localDetail,
                         Emitted localDetail] \<and>
   map act_id (activities (handleTaskActivity localDetail tenFeed))
     = [StrId ''act-1700000000000-k3j9x0a1b'', NumId 1, NumId 2, NumId 3, NumId 4, NumId 5,
        NumId 6, NumId 7, NumId 8, NumId 9] \<and>
   distinct (map act_id (activities (handleTaskActivity localDetail tenFeed))) \<and>
   map act_id (activities (runFeed [Fetched (Some ''token'') twelveResponse, Emitted localDetail,
                                    Emitted localDetail] initialFeed))
     = [StrId ''act-1700000000000-k3j9x0a1b'', NumId 1, NumId 2, NumId 3, NumId 4, NumId 5,
        NumId 6, NumId 7, NumId 8, NumId 9] \<and>
   distinct (map act_id (activities (runFeed [Fetched (Some ''token'') twelveResponse,
                                              Emitted localDetail, Emitted localDetail]
                                       initialFeed)))"
  using handleTaskActivity_merge
          [of localDetail tenFeed
              "[Fetched (Some ''token'') twelveResponse, Emitted localDetail, Emitted localDetail]"]
  by (simp add: handleTaskActivity_def mergeActivity_def tenFeed_def localDetail_def
      createdActivity_def convertedActivity_def serverItem_def runFeed_def fetchActivities_def
      twelveResponse_def initialFeed_def hostUTC_def clock_digits)

text \<open>
  The merge removes only the entries with the new item's identifier: a feed fetched from
  a response that lists one record twice still holds it twice after a merge.
\<close>

theorem handleTaskActivity_keeps_repeated_ids:
  "map act_id (activities (handleTaskActivity localDetail
      (fetchActivities (Some ''token'') repeatedResponse initialFeed)))
     = [StrId ''act-1700000000000-k3j9x0a1b'', NumId 7, NumId 7] \<and>
   \<not> distinct (map act_id (activities (handleTaskActivity localDetail
      (fetchActivities (Some ''token'') repeatedResponse initialFeed))))"
  by (simp add: handleTaskActivity_def mergeActivity_def fetchActivities_def
      repeatedResponse_def initialFeed_def localDetail_def createdActivity_def
      convertedActivity_def serverItem_def hostUTC_def clock_digits)

section \<open>Recent instants in the relative-time formatter\<close>

lemma seconds_lt: "(x::int) div 1000 < 60 \<longleftrightarrow> x < 60000"
  by linarith
lemma seconds_lt_hour: "(x::int) div 1000 < 3600 \<longleftrightarrow> x < 3600000"
  by linarith
lemma seconds_lt_day: "(x::int) div 1000 < 86400 \<longleftrightarrow> x < 86400000"
  by linarith
lemma minutes_of: "(x::int) div 1000 div 60 = x div 60000"
  by (simp add: zdiv_zmult2_eq [symmetric])
lemma hours_of: "(x::int) div 1000 div 3600 = x div 3600000"
  by (simp add: zdiv_zmult2_eq [symmetric])

text \<open>
  Claim C7. \<open>formatTimeAgo\<close> returns \<open>just now\<close> when the timestamp is absent and when
  now is less than 60 seconds after it; from one minute up to one hour it returns the
  whole minutes elapsed, \<open>n\<close> from 1 to 59, as \<open>1 minute ago\<close> or \<open>n minutes ago\<close>; from
  one hour up to one day it returns the whole hours elapsed, \<open>n\<close> from 1 to 23, as
  \<open>1 hour ago\<close> or \<open>n hours ago\<close>. Deltas are in milliseconds.
\<close>

theorem formatTimeAgo_recent:
  "formatTimeAgo h None = ''just now'' \<and>
   (clock h - t < 60000 \<longrightarrow> formatTimeAgo h (Some t) = ''just now'') \<and>
   (60000 \<le> clock h - t \<and> clock h - t < 3600000 \<longrightarrow>
      formatTimeAgo h (Some t) =
        numToString ((clock h - t) div 60000) @
          (if (clock h - t) div 60000 = 1 then '' minute ago'' else '' minutes ago'') \<and>
      1 \<le> (clock h - t) div 60000 \<and> (clock h - t) div 60000 < 60) \<and>
   (3600000 \<le> clock h - t \<and> clock h - t < 86400000 \<longrightarrow>
      formatTimeAgo h (Some t) =
        numToString ((clock h - t) div 3600000) @
          (if (clock h - t) div 3600000 = 1 then '' hour ago'' else '' hours ago'') \<and>
      1 \<le> (clock h - t) div 3600000 \<and> (clock h - t) div 3600000 < 24)"
proof -
  define x where "x = clock h - t"
  have f: "formatTimeAgo h (Some t) =
      (if x < 60000 then ''just now''
       else if x < 3600000 then
         numToString (x div 60000) @ '' minute'' @ (if x div 60000 \<noteq> 1 then ''s'' else [])
           @ '' ago''
       else if x < 86400000 then
         numToString (x div 3600000) @ '' hour'' @ (if x div 3600000 \<noteq> 1 then ''s'' else [])
           @ '' ago''
       else if setHours0 h t = setHours0 h (clock h)
       then ''Today at '' @ toLocaleTimeString h t
       else if setHours0 h t = setHours0 h (clock h - msPerDay)
       then ''Yesterday at '' @ toLocaleTimeString h t
       else if x div 1000 < 604800 then toLocaleWeekday h t
       else toLocaleShortDate h t)"
    unfolding formatTimeAgo_def Let_def x_def
    by (simp only: option.case seconds_lt seconds_lt_hour seconds_lt_day minutes_of hours_of)
  have b: "60000 \<le> x \<Longrightarrow> x < 3600000 \<Longrightarrow> 1 \<le> x div 60000 \<and> x div 60000 < 60"
    by linarith
  have c: "3600000 \<le> x \<Longrightarrow> x < 86400000 \<Longrightarrow> 1 \<le> x div 3600000 \<and> x div 3600000 < 24"
    by linarith
  show ?thesis
    unfolding x_def [symmetric] f using b c
    by (simp add: formatTimeAgo_def)
qed

theorem formatTimeAgo_recent_witness:
  "formatTimeAgo hostUTC (Some 1699999970000) = ''just now'' \<and>
   formatTimeAgo hostUTC (Some 1700000300000) = ''just now'' \<and>
   formatTimeAgo hostUTC (Some 1699999910000) = ''1 minute ago'' \<and>
   formatTimeAgo hostUTC (Some 1699997400000) = ''43 minutes ago'' \<and>
   formatTimeAgo hostUTC (Some 1699996000000) = ''1 hour ago'' \<and>
   formatTimeAgo hostUTC (Some 1699920000000) = ''22 hours ago''"
proof -
  have c: "clock hostUTC = 1700000000000" by (simp add: hostUTC_def)
  have d: "numToString 1 = ''1''" "numToString 43 = ''43''" "numToString 22 = ''22''"
    by (simp_all add: numToString_def natToString.simps digitChar_def)
  show ?thesis
    using formatTimeAgo_recent [of hostUTC 1699999970000]
      formatTimeAgo_recent [of hostUTC 1700000300000]
      formatTimeAgo_recent [of hostUTC 1699999910000]
      formatTimeAgo_recent [of hostUTC 1699997400000]
      formatTimeAgo_recent [of hostUTC 1699996000000]
      formatTimeAgo_recent [of hostUTC 1699920000000]
    by (simp add: c d)
qed

section \<open>Failures of the API client in the task API\<close>

lemma surfaces_taskResult: "surfaces settled (taskResult settled)"
  by (cases settled) (auto simp: surfaces_def taskResult_def)

text \<open>
  Claim C9. Each of \<open>getAllTasks\<close>, \<open>createTask\<close>, \<open>updateTask\<close>, \<open>deleteTask\<close> and
  \<open>getTaskById\<close> resolves to a result with a \<open>success\<close> flag: when the client's
  response reports failure the result has \<open>success = false\<close> and the response's error,
  and a result carries \<open>tasks\<close> or \<open>task\<close> only with \<open>success = true\<close>. (When the
  client's call rejects, so does the function's.)
\<close>

theorem tasksApi_surfaces_failure:
  "surfaces (listClient (get_request ''/tasks'' (bearer token)))
     (getAllTasks listClient token) \<and>
   surfaces (apiClient (post_request ''/tasks'' (CreateBody newData) (bearer token)))
     (createTask apiClient newData token) \<and>
   surfaces (apiClient (put_request (''/tasks/'' @ numToString tid) (UpdateBody updData)
                          (bearer token)))
     (updateTask apiClient tid updData token) \<and>
   surfaces (deleteClient (delete_request (''/tasks/'' @ numToString tid) (bearer token)))
     (deleteTask deleteClient tid token) \<and>
   surfaces (apiClient (get_request (''/tasks/'' @ numToString tid) (bearer token)))
     (getTaskById apiClient tid token)"
proof -
  have a: "surfaces (listClient (get_request ''/tasks'' (bearer token)))
             (getAllTasks listClient token)"
    by (cases "listClient (get_request ''/tasks'' (bearer token))")
       (auto simp: surfaces_def getAllTasks_def)
  have d: "surfaces (deleteClient (delete_request (''/tasks/'' @ numToString tid) (bearer token)))
             (deleteTask deleteClient tid token)"
    by (cases "deleteClient (delete_request (''/tasks/'' @ numToString tid) (bearer token))")
       (auto simp: surfaces_def deleteTask_def)
  show ?thesis
    using a d by (simp add: createTask_def updateTask_def getTaskById_def surfaces_taskResult)
qed

theorem tasksApi_surfaces_failure_witness:
  "getAllTasks refusingClient ''token''
     = Resolved \<lparr>success = False, tasks = None, task = None, error = Some ''Not authenticated''\<rparr> \<and>
   createTask refusingClient (formData blankForm) ''token''
     = Resolved \<lparr>success = False, tasks = None, task = None, error = Some ''Not authenticated''\<rparr> \<and>
   updateTask refusingClient 3 markDone ''token''
     = Resolved \<lparr>success = False, tasks = None, task = None, error = Some ''Not authenticated''\<rparr> \<and>
   deleteTask (refusingClient :: Request \<Rightarrow> unit ApiResponse Settled) 3 ''token''
     = Resolved \<lparr>success = False, tasks = None, task = None, error = Some ''Not authenticated''\<rparr> \<and>
   getTaskById refusingClient 3 ''token''
     = Resolved \<lparr>success = False, tasks = None, task = None, error = Some ''Not authenticated''\<rparr> \<and>
   getTaskById answeringClient 3 ''token''
     = Resolved \<lparr>success = True, tasks = None, task = Some taskDue, error = None\<rparr>"
  using tasksApi_surfaces_failure
          [of "refusingClient :: Request \<Rightarrow> Task list ApiResponse Settled" "''token''"
              "refusingClient :: Request \<Rightarrow> Task ApiResponse Settled" "formData blankForm"
              3 markDone "refusingClient :: Request \<Rightarrow> unit ApiResponse Settled"]
        tasksApi_surfaces_failure
          [of "refusingClient :: Request \<Rightarrow> Task list ApiResponse Settled" "''token''"
              answeringClient "formData blankForm"
              3 markDone "refusingClient :: Request \<Rightarrow> unit ApiResponse Settled"]
  by (simp add: getAllTasks_def createTask_def updateTask_def deleteTask_def getTaskById_def
      taskResult_def refusingClient_def answeringClient_def)

section \<open>Validation in the new-task form\<close>

lemma trim_blank:
  assumes "\<forall>c\<in>set s. isWhiteSpace c"
  shows "trim s = []"
proof -
  have d: "dropWhile isWhiteSpace s = []"
    using assms by (induction s) simp_all
  show ?thesis unfolding trim_def d by simp
qed

lemma trim_blank_iff: "trim s = [] \<longleftrightarrow> list_all isWhiteSpace s"
proof
  assume "list_all isWhiteSpace s"
  then have "\<forall>c\<in>set s. isWhiteSpace c" by (simp add: list_all_iff)
  then show "trim s = []" by (rule trim_blank)
next
  assume t: "trim s = []"
  then have "dropWhile isWhiteSpace (rev (dropWhile isWhiteSpace s)) = []"
    by (simp add: trim_def)
  then have "\<forall>c\<in>set (rev (dropWhile isWhiteSpace s)). isWhiteSpace c"
    by (simp only: dropWhile_eq_Nil_conv)
  then have a: "\<forall>c\<in>set (dropWhile isWhiteSpace s). isWhiteSpace c" by simp
  have "dropWhile isWhiteSpace s = []"
  proof (cases "dropWhile isWhiteSpace s")
    case Nil
    then show ?thesis .
  next
    case (Cons c cs)
    then have "\<not> isWhiteSpace c" using hd_dropWhile [of isWhiteSpace s] by simp
    moreover have "isWhiteSpace c" using a Cons by simp
    ultimately show ?thesis by simp
  qed
  then have "\<forall>c\<in>set s. isWhiteSpace c" by (simp only: dropWhile_eq_Nil_conv)
  then show "list_all isWhiteSpace s" by (simp add: list_all_iff)
qed

text \<open>
  Claim C10. Submitting the new-task form with a title that is empty or all white space
  sets the error \<open>Title is required\<close> and does nothing else: \<open>createTask\<close> is not
  called, and the form data and the loading flag are as before.
\<close>

theorem handleSubmit_blank_title:
  assumes "list_all isWhiteSpace (new_title (formData st))"
  shows "handleSubmit apiClient h random token st
           = (st\<lparr>form_error := ''Title is required''\<rparr>, [PreventDefault]) \<and>
         formData (fst (handleSubmit apiClient h random token st)) = formData st \<and>
         loading (fst (handleSubmit apiClient h random token st)) = loading st \<and>
         form_error (fst (handleSubmit apiClient h random token st)) = ''Title is required'' \<and>
         (\<forall>taskData tok. CallCreateTask taskData tok
            \<notin> set (snd (handleSubmit apiClient h random token st)))"
proof -
  have "\<forall>c\<in>set (new_title (formData st)). isWhiteSpace c"
    using assms by (simp add: list_all_iff)
  then have "trim (new_title (formData st)) = []"
    by (rule trim_blank)
  then show ?thesis
    by (simp add: handleSubmit_def)
qed

theorem handleSubmit_blank_title_witness:
  "list_all isWhiteSpace (new_title (formData blankForm)) \<and>
   handleSubmit answeringClient hostUTC ''k3j9x0a1b'' ''token'' blankForm
     = (blankForm\<lparr>form_error := ''Title is required''\<rparr>, [PreventDefault])"
proof -
  have b: "list_all isWhiteSpace (new_title (formData blankForm))"
    by (simp add: blankForm_def isWhiteSpace_def)
  show ?thesis
    using handleSubmit_blank_title [OF b, of answeringClient hostUTC "''k3j9x0a1b''" "''token''"] b
    by simp
qed

text \<open>
  With any other title \<open>createTask\<close> is called, with the title capitalised: the
  validation rejects the titles of white space and no others.
\<close>

lemma handleSubmit_titled_calls:
  assumes "\<not> list_all isWhiteSpace (new_title (formData st))"
  shows "CallCreateTask ((formData st)\<lparr>new_title := capitalize (new_title (formData st))\<rparr>) token
           \<in> set (snd (handleSubmit apiClient h random token st))"
proof -
  have "trim (new_title (formData st)) \<noteq> []"
    using assms by (simp add: trim_blank_iff)
  then show ?thesis
    by (auto simp: handleSubmit_def Let_def split: Settled.splits option.splits)
qed

text \<open>The sample form with a title typed in, run to its end.\<close>

lemma handleSubmit_titled:
  "snd (handleSubmit answeringClient hostUTC ''k3j9x0a1b'' ''token''
      (blankForm\<lparr>formData := (formData blankForm)\<lparr>new_title := ''buy milk''\<rparr>\<rparr>))
   = [PreventDefault,
      CallCreateTask ((formData blankForm)\<lparr>new_title := ''Buy milk''\<rparr>) ''token'',
      DispatchTaskUpdated,
      DispatchTaskActivity (createdActivity hostUTC ''k3j9x0a1b'' taskDue),
      RouterPush ''/tasks'']"
  by (simp add: handleSubmit_def trim_def isWhiteSpace_def blankForm_def capitalize_def upperChar_def
    createTask_def taskResult_def answeringClient_def)

section \<open>The source array is left as it was\<close>

text \<open>
  Claim C8. \<open>applyFiltersAndSorting\<close> leaves the collection it is given unchanged and
  produces a new sequence: run on the array at an address of the store, it returns, the
  array at that address (and at every address in use before the call) holds the same
  elements in the same order afterwards, and \<open>filteredTasks\<close> refers to another, new
  array, which holds the filtered and sorted list.
\<close>

theorem applyFiltersAndSorting_store_frame:
  assumes "arrays s tasksToFilter = Some xs" and "tasksToFilter < fresh s"
  shows "\<exists>s'. applyFiltersAndSorting_store h p tasksToFilter s = Some s' \<and>
           arrays s' tasksToFilter = Some xs \<and>
           (\<forall>r. r < fresh s \<longrightarrow> arrays s' r = arrays s r) \<and>
           filteredTasks s' \<noteq> tasksToFilter \<and>
           arrays s' (filteredTasks s') = Some (applyFiltersAndSorting h p xs)"
proof (cases "searchTerm p = []")
  case True
  then show ?thesis
    using assms
    by (simp add: applyFiltersAndSorting_store_def applyFiltersAndSorting_def spreadArray_def
        filterArray_def sortArray_def alloc_def Let_def)
next
  case False
  then show ?thesis
    using assms
    by (simp add: applyFiltersAndSorting_store_def applyFiltersAndSorting_def spreadArray_def
        filterArray_def sortArray_def alloc_def Let_def)
qed

theorem applyFiltersAndSorting_store_frame_witness:
  "arrays store0 0 = Some [taskB, taskA, taskDue] \<and> 0 < fresh store0 \<and>
   map_option (\<lambda>s'. (arrays s' 0, arrays s' 1, filteredTasks s', arrays s' (filteredTasks s')))
     (applyFiltersAndSorting_store hostUTC (params All ByPriority Asc) 0 store0)
     = Some (Some [taskB, taskA, taskDue], Some [], 3, Some [taskA, taskDue, taskB])"
  using applyFiltersAndSorting_store_frame
          [of store0 0 "[taskB, taskA, taskDue]" hostUTC "params All ByPriority Asc"]
  by (simp add: applyFiltersAndSorting_store_def spreadArray_def filterArray_def sortArray_def
      alloc_def store0_def params_def statusKeeps_def sort_cmp_def compareFn_def comparison_def
      taskA_def taskB_def taskDue_def)

section \<open>Further properties\<close>

text \<open>
  Sorted by priority, the direction \<open>asc\<close> lists the tasks from high to low rank and
  the direction \<open>desc\<close> from low to high, for every collection.
\<close>

lemma priority_order_by_direction:
  assumes "sortBy p = ByPriority"
    and "i < j" and "j < length (applyFiltersAndSorting h p xs)"
  shows "(sortOrder p = Asc \<longrightarrow>
            pOrder (priority (applyFiltersAndSorting h p xs ! j))
              \<le> pOrder (priority (applyFiltersAndSorting h p xs ! i))) \<and>
         (sortOrder p = Desc \<longrightarrow>
            pOrder (priority (applyFiltersAndSorting h p xs ! i))
              \<le> pOrder (priority (applyFiltersAndSorting h p xs ! j)))"
proof -
  let ?out = "applyFiltersAndSorting h p xs"
  have "ordered_by (compareFn h p) ?out"
    using assms(1) by (intro ordered_applyFiltersAndSorting) simp
  then have "compareFn h p (?out ! i) (?out ! j) \<le> 0"
    using assms(2,3) by (rule sorted_wrt_nth_less)
  then show ?thesis
    using assms(1) by (cases "sortOrder p") (simp_all add: compareFn_def comparison_def)
qed

lemma priority_order_by_direction_witness:
  "sortBy (params All ByPriority Asc) = ByPriority \<and> sortBy (params All ByPriority Desc) = ByPriority \<and>
   (0::nat) < 2 \<and>
   map priority (applyFiltersAndSorting hostUTC (params All ByPriority Asc) [taskB, taskA, taskDue])
     = [High, Medium, Low] \<and>
   map priority (applyFiltersAndSorting hostUTC (params All ByPriority Desc) [taskB, taskA, taskDue])
     = [Low, Medium, High] \<and>
   pOrder Low \<le> pOrder High"
  using priority_order_by_direction
          [of "params All ByPriority Asc" 0 2 hostUTC "[taskB, taskA, taskDue]"]
        priority_order_by_direction
          [of "params All ByPriority Desc" 0 2 hostUTC "[taskB, taskA, taskDue]"]
  by (simp add: applyFiltersAndSorting_def sort_cmp_def compareFn_def comparison_def
      statusKeeps_def params_def taskA_def taskB_def taskDue_def)

text \<open>The displayed list is a rearrangement of the tasks that pass both filters.\<close>

lemma mset_insert_cmp: "mset (insert_cmp c x ys) = add_mset x (mset ys)"
  by (induction ys) simp_all

lemma mset_sort_cmp: "mset (sort_cmp c xs) = mset xs"
  by (induction xs) (simp_all add: sort_cmp_def mset_insert_cmp)

lemma applyFiltersAndSorting_permutes_kept:
  "mset (applyFiltersAndSorting h p xs) =
     mset (filter (\<lambda>t. (searchTerm p = [] \<or> matchesSearch (toLowerCase (searchTerm p)) t) \<and>
                        statusKeeps h (statusFilter p) (getToday h) t) xs)"
proof (cases "searchTerm p = []")
  case True
  then show ?thesis
    by (simp add: applyFiltersAndSorting_def Let_def mset_sort_cmp)
next
  case False
  then show ?thesis
    by (simp add: applyFiltersAndSorting_def Let_def mset_sort_cmp conj_commute)
qed

end
